theory Spec2Isabelle
  imports Complex_Main "HOL-Library.Log_Nat"
begin

section \<open>Numbers of the program\<close>

text \<open>
  The kinetic engine of \<^verbatim>\<open>Kinetic_Model.py\<close> computes with Python floats (the values
  read from the Tk variables, the literals) and with numpy \<^verbatim>\<open>float64\<close> scalars (the
  elements of \<^verbatim>\<open>np.arange\<close> and \<^verbatim>\<open>np.linspace\<close>, every result of \<^verbatim>\<open>np.exp\<close> and
  \<^verbatim>\<open>np.log10\<close>). Both are IEEE binary64 values; they differ in what a division by
  zero does: Python raises \<^verbatim>\<open>ZeroDivisionError\<close>, numpy returns an infinity or a NaN
  (and prints a warning, which is not an exception).

  A value is a real number or one of the three special values. The sign of zero is not
  represented. The rounding of each operation and the two library functions are a
  parameter of the model (\<open>arith\<close>): \<open>binary64\<close> rounds every result to 53
  significant bits, ties to even, with an unbounded exponent (no overflow, no underflow
  of a sum, product or quotient); \<open>float64\<close> adds library functions that are rounded
  correctly, with the underflow of \<^verbatim>\<open>exp\<close> to zero; \<open>exact\<close> is arithmetic without
  rounding error, for comparison.
\<close>

datatype f64 = Fin real | PosInf | NegInf | NaN

datatype pykind = PyFloat | NpFloat64

type_synonym num = "pykind \<times> f64"

text \<open>
  The exceptions: \<^verbatim>\<open>ZeroDivisionError\<close> is what the operator \<^verbatim>\<open>/\<close> raises;
  \<^verbatim>\<open>ValueError\<close> is what a check of an argument raises in Python. The source has no
  \<^verbatim>\<open>raise\<close> statement and no check, so nothing below produces the second.
\<close>

datatype pyerror = ZeroDivisionError | ValueError

record arith =
  rnd :: "real \<Rightarrow> real"
  exp_fn :: "real \<Rightarrow> real"
  log10_fn :: "real \<Rightarrow> real"

definition exact :: arith where
  "exact = \<lparr>rnd = (\<lambda>x. x), exp_fn = exp, log10_fn = log 10\<rparr>"

subsection \<open>Rounding to binary64\<close>

definition round_half_even :: "real \<Rightarrow> int" where
  "round_half_even x =
     (let f = \<lfloor>x\<rfloor>; d = x - of_int f
      in if d < 1 / 2 then f else if 1 / 2 < d then f + 1
         else if even f then f else f + 1)"

definition exponent2 :: "real \<Rightarrow> int" where
  \<comment> \<open>the \<open>e\<close> with \<open>2^e \<le> |x| < 2^(e+1)\<close>, for \<open>x \<noteq> 0\<close>\<close>
  "exponent2 x =
     (if 1 \<le> \<bar>x\<bar> then bitlen \<lfloor>\<bar>x\<bar>\<rfloor> - 1 else - bitlen (\<lceil>1 / \<bar>x\<bar>\<rceil> - 1))"

definition pow2 :: "int \<Rightarrow> real" where
  "pow2 e = (if 0 \<le> e then 2 ^ nat e else 1 / 2 ^ nat (- e))"

definition round_binary64 :: "real \<Rightarrow> real" where
  "round_binary64 x =
     (if x = 0 then 0
      else let u = pow2 (exponent2 x - 52)
           in of_int (round_half_even (x / u)) * u)"

definition binary64 :: "(real \<Rightarrow> real) \<Rightarrow> (real \<Rightarrow> real) \<Rightarrow> arith" where
  \<comment> \<open>the library functions \<^verbatim>\<open>exp\<close> and \<^verbatim>\<open>log10\<close> are not correctly rounded in general:
      they stay parameters\<close>
  "binary64 e l = \<lparr>rnd = round_binary64, exp_fn = e, log10_fn = l\<rparr>"

text \<open>
  A correctly rounded \<^verbatim>\<open>exp\<close>. Below \<open>-746\<close> the exponential is less than half the
  smallest positive double and the result is zero. (Between \<open>-746\<close> and \<open>-708\<close> the
  result of the library is a subnormal number, with fewer than 53 bits; nothing below
  evaluates \<open>exp64\<close> there.)
\<close>

definition exp64 :: "real \<Rightarrow> real" where
  "exp64 x = (if x < - 746 then 0 else round_binary64 (exp x))"

definition log10_64 :: "real \<Rightarrow> real" where
  "log10_64 x = round_binary64 (log 10 x)"

definition float64 :: arith where
  "float64 = binary64 exp64 log10_64"

subsection \<open>IEEE operations on values\<close>

fun is_neg :: "f64 \<Rightarrow> bool" where
  "is_neg (Fin a) = (a < 0)"
| "is_neg NegInf = True"
| "is_neg _ = False"

fun f64_neg :: "f64 \<Rightarrow> f64" where
  "f64_neg (Fin a) = Fin (- a)"
| "f64_neg PosInf = NegInf"
| "f64_neg NegInf = PosInf"
| "f64_neg NaN = NaN"

fun f64_add :: "arith \<Rightarrow> f64 \<Rightarrow> f64 \<Rightarrow> f64" where
  "f64_add A (Fin a) (Fin b) = Fin (rnd A (a + b))"
| "f64_add A NaN _ = NaN"
| "f64_add A _ NaN = NaN"
| "f64_add A PosInf NegInf = NaN"
| "f64_add A NegInf PosInf = NaN"
| "f64_add A PosInf _ = PosInf"
| "f64_add A _ PosInf = PosInf"
| "f64_add A NegInf _ = NegInf"
| "f64_add A _ NegInf = NegInf"

definition f64_sub :: "arith \<Rightarrow> f64 \<Rightarrow> f64 \<Rightarrow> f64" where
  "f64_sub A x y = f64_add A x (f64_neg y)"

fun f64_mul :: "arith \<Rightarrow> f64 \<Rightarrow> f64 \<Rightarrow> f64" where
  "f64_mul A (Fin a) (Fin b) = Fin (rnd A (a * b))"
| "f64_mul A NaN _ = NaN"
| "f64_mul A _ NaN = NaN"
| "f64_mul A x y =
     (if x = Fin 0 \<or> y = Fin 0 then NaN
      else if is_neg x = is_neg y then PosInf else NegInf)"

fun f64_div :: "arith \<Rightarrow> f64 \<Rightarrow> f64 \<Rightarrow> f64" where
  "f64_div A (Fin a) (Fin b) =
     (if b = 0 then (if a = 0 then NaN else if 0 < a then PosInf else NegInf)
      else Fin (rnd A (a / b)))"
| "f64_div A NaN _ = NaN"
| "f64_div A _ NaN = NaN"
| "f64_div A (Fin a) _ = Fin 0"
| "f64_div A x (Fin b) = (if is_neg x = (b < 0) then PosInf else NegInf)"
| "f64_div A _ _ = NaN"

fun f64_exp :: "arith \<Rightarrow> f64 \<Rightarrow> f64" where
  "f64_exp A (Fin a) = Fin (exp_fn A a)"
| "f64_exp A PosInf = PosInf"
| "f64_exp A NegInf = Fin 0"
| "f64_exp A NaN = NaN"

fun f64_log10 :: "arith \<Rightarrow> f64 \<Rightarrow> f64" where
  "f64_log10 A (Fin a) =
     (if 0 < a then Fin (log10_fn A a) else if a = 0 then NegInf else NaN)"
| "f64_log10 A PosInf = PosInf"
| "f64_log10 A _ = NaN"

fun f64_le :: "f64 \<Rightarrow> f64 \<Rightarrow> bool" where
  "f64_le (Fin a) (Fin b) = (a \<le> b)"
| "f64_le NaN _ = False"
| "f64_le _ NaN = False"
| "f64_le NegInf _ = True"
| "f64_le _ PosInf = True"
| "f64_le _ _ = False"

subsection \<open>The operators of Python on numbers\<close>

text \<open>
  A binary operator gives a numpy scalar as soon as one operand is one. Only \<^verbatim>\<open>/\<close>
  between two Python numbers (floats or ints) raises, on a zero divisor.
\<close>

definition result_kind :: "pykind \<Rightarrow> pykind \<Rightarrow> pykind" where
  "result_kind j k = (if j = NpFloat64 \<or> k = NpFloat64 then NpFloat64 else PyFloat)"

definition py :: "real \<Rightarrow> num" where
  "py x = (PyFloat, Fin x)"

definition np :: "real \<Rightarrow> num" where
  "np x = (NpFloat64, Fin x)"

definition neg :: "num \<Rightarrow> num" where
  "neg x = (fst x, f64_neg (snd x))"

definition add :: "arith \<Rightarrow> num \<Rightarrow> num \<Rightarrow> num" where
  "add A x y = (result_kind (fst x) (fst y), f64_add A (snd x) (snd y))"

definition sub :: "arith \<Rightarrow> num \<Rightarrow> num \<Rightarrow> num" where
  "sub A x y = (result_kind (fst x) (fst y), f64_sub A (snd x) (snd y))"

definition mul :: "arith \<Rightarrow> num \<Rightarrow> num \<Rightarrow> num" where
  "mul A x y = (result_kind (fst x) (fst y), f64_mul A (snd x) (snd y))"

definition truediv :: "arith \<Rightarrow> num \<Rightarrow> num \<Rightarrow> pyerror + num" where
  "truediv A x y =
     (if fst x = PyFloat \<and> fst y = PyFloat \<and> snd y = Fin 0 then Inl ZeroDivisionError
      else Inr (result_kind (fst x) (fst y), f64_div A (snd x) (snd y)))"

definition truediv_int :: "arith \<Rightarrow> int \<Rightarrow> int \<Rightarrow> pyerror + real" where
  \<comment> \<open>\<^verbatim>\<open>/\<close> between two Python ints: the float nearest to the quotient\<close>
  "truediv_int A a b =
     (if b = 0 then Inl ZeroDivisionError else Inr (rnd A (of_int a / of_int b)))"

definition le :: "num \<Rightarrow> num \<Rightarrow> bool" where
  "le x y = f64_le (snd x) (snd y)"

definition np_exp :: "arith \<Rightarrow> num \<Rightarrow> num" where
  "np_exp A x = (NpFloat64, f64_exp A (snd x))"

definition np_log10 :: "arith \<Rightarrow> num \<Rightarrow> num" where
  "np_log10 A x = (NpFloat64, f64_log10 A (snd x))"

section \<open>The three models\<close>

text \<open>
  \<^verbatim>\<open>inhibition_model\<close>: \<^verbatim>\<open>return mu_max / (1 + concentration / Ki)\<close>.
\<close>

definition inhibition_model :: "arith \<Rightarrow> num \<Rightarrow> num \<Rightarrow> num \<Rightarrow> pyerror + num" where
  "inhibition_model A conc mumax Ki =
     (case truediv A conc Ki of
        Inl e \<Rightarrow> Inl e
      | Inr q \<Rightarrow> truediv A mumax (add A (py 1) q))"

text \<open>
  \<^verbatim>\<open>pharmacokinetic_model\<close>: \<^verbatim>\<open>k_total = ka + ke\<close>, then
  \<^verbatim>\<open>return initial_conc * np.exp(-k_total * time)\<close>.
\<close>

definition pharmacokinetic_model :: "arith \<Rightarrow> num \<Rightarrow> num \<Rightarrow> num \<Rightarrow> num \<Rightarrow> num" where
  "pharmacokinetic_model A t c0 k_a k_e =
     (let k_total = add A k_a k_e
      in mul A c0 (np_exp A (mul A (neg k_total) t)))"

text \<open>
  \<^verbatim>\<open>population_growth_model\<close>: the decline branch \<^verbatim>\<open>N0 * np.exp(-0.1 * time)\<close> when
  \<^verbatim>\<open>mu <= 0\<close>, else the logistic closed form
  \<^verbatim>\<open>(K_max * N0) / (N0 + (K_max - N0) * np.exp(-mu * time))\<close>. The literal \<^verbatim>\<open>0.1\<close> is
  the float nearest to one tenth.
\<close>

definition population_growth_model :: "arith \<Rightarrow> num \<Rightarrow> num \<Rightarrow> num \<Rightarrow> num \<Rightarrow> pyerror + num" where
  "population_growth_model A t m Kmax N0 =
     (if le m (py 0) then Inr (mul A N0 (np_exp A (mul A (neg (py (rnd A (1 / 10)))) t)))
      else truediv A (mul A Kmax N0)
             (add A N0 (mul A (sub A Kmax N0) (np_exp A (mul A (neg m) t)))))"

section \<open>The application object\<close>

text \<open>
  \<^verbatim>\<open>self.parameters\<close> holds seven \<^verbatim>\<open>DoubleVar\<close>s and one \<^verbatim>\<open>IntVar\<close>; \<^verbatim>\<open>get()\<close> gives
  a Python float, respectively a Python int. \<^verbatim>\<open>self.experimental_data\<close> maps a compound
  to its rows (conc, mu, g, viable); \<^verbatim>\<open>self.results_vars\<close> holds the four strings of
  the results panel.
\<close>

record parameters =
  mu_max :: real
  Ki_comp1 :: real
  Ki_comp2 :: real
  K_max :: real
  ka :: real
  ke :: real
  initial_conc :: real
  time_points :: int

record results_vars =
  ed50_comp1 :: string
  ed50_comp2 :: string
  potencia_rel :: string
  ki_ratio :: string

record interactive_kinetic_model =
  parameters :: parameters
  selected_compound :: string
  experimental_data :: "(string \<times> (real \<times> real \<times> real \<times> real) list) list"
  results_vars :: results_vars

text \<open>A float literal denotes the float nearest to it.\<close>

definition default_parameters :: "arith \<Rightarrow> parameters" where
  "default_parameters A =
     \<lparr>mu_max = rnd A (95 / 100), Ki_comp1 = rnd A (12 / 100), Ki_comp2 = rnd A 10,
      K_max = rnd A (10 ^ 9), ka = rnd A (1 / 10), ke = rnd A (5 / 100),
      initial_conc = rnd A (2 / 10), time_points = 100\<rparr>"

definition init :: "arith \<Rightarrow> interactive_kinetic_model" where
  "init A =
     \<lparr>parameters = default_parameters A,
      selected_compound = ''compound1'',
      experimental_data =
        [(''compound1'',
            [(rnd A 0, rnd A (95 / 100), rnd A (73 / 100), rnd A 1),
             (rnd A (5 / 100), rnd A (85 / 100), rnd A (82 / 100), rnd A (89 / 100)),
             (rnd A (10 / 100), rnd A (75 / 100), rnd A (92 / 100), rnd A (79 / 100)),
             (rnd A (15 / 100), rnd A (55 / 100), rnd A (126 / 100), rnd A (58 / 100)),
             (rnd A (20 / 100), rnd A (40 / 100), rnd A (173 / 100), rnd A (42 / 100))]),
         (''compound2'',
            [(rnd A 0, rnd A (95 / 100), rnd A (73 / 100), rnd A 1),
             (rnd A (5 / 100), rnd A (90 / 100), rnd A (77 / 100), rnd A (95 / 100)),
             (rnd A (10 / 100), rnd A (91 / 100), rnd A (76 / 100), rnd A (96 / 100)),
             (rnd A (15 / 100), rnd A (89 / 100), rnd A (78 / 100), rnd A (94 / 100)),
             (rnd A (20 / 100), rnd A (90 / 100), rnd A (77 / 100), rnd A (95 / 100))])],
      results_vars = \<lparr>ed50_comp1 = [], ed50_comp2 = [], potencia_rel = [], ki_ratio = []\<rparr>\<rparr>"

section \<open>The time series\<close>

text \<open>
  \<^verbatim>\<open>np.arange(start, stop, step)\<close> on floats: the length is the ceiling of
  \<^verbatim>\<open>(stop - start) / step\<close>, computed in floating point (none when it is not positive);
  the first element is \<^verbatim>\<open>start\<close>, the second \<^verbatim>\<open>start + step\<close>, and element \<open>i\<close> is
  \<^verbatim>\<open>start + i * delta\<close> with \<^verbatim>\<open>delta\<close> the difference of the first two. A zero step
  raises.
\<close>

definition arange :: "arith \<Rightarrow> real \<Rightarrow> real \<Rightarrow> real \<Rightarrow> pyerror + real list" where
  "arange A start stop step =
     (if step = 0 then Inl ZeroDivisionError
      else let len = \<lceil>rnd A (rnd A (stop - start) / step)\<rceil>;
               next = rnd A (start + step);
               delta = rnd A (next - start)
           in Inr (map (\<lambda>i. if i = 0 then start else if i = 1 then next
                              else rnd A (start + rnd A (real i * delta)))
                    [0..<nat len]))"

record sample =
  time :: num
  concentration :: num
  mu :: num
  biomass :: num
  raw_biomass :: num

text \<open>The body of the loop of \<^verbatim>\<open>calculate_kinetic_data\<close>, for one element of the array.\<close>

definition kinetic_row :: "arith \<Rightarrow> interactive_kinetic_model \<Rightarrow> real \<Rightarrow> pyerror + sample" where
  "kinetic_row A self t =
     (let p = parameters self;
          current_conc = pharmacokinetic_model A (np t) (py (initial_conc p)) (py (ka p)) (py (ke p));
          ki_value = (if selected_compound self = ''compound1'' then Ki_comp1 p else Ki_comp2 p)
      in case inhibition_model A current_conc (py (mu_max p)) (py ki_value) of
           Inl e \<Rightarrow> Inl e
         | Inr current_mu \<Rightarrow>
             (case population_growth_model A (np t) current_mu (py (K_max p)) (py (rnd A 1000000)) of
                Inl e \<Rightarrow> Inl e
              | Inr b \<Rightarrow>
                  Inr \<lparr>time = np t, concentration = current_conc, mu = current_mu,
                       biomass = np_log10 A b, raw_biomass = b\<rparr>))"

fun kinetic_rows :: "arith \<Rightarrow> interactive_kinetic_model \<Rightarrow> real list \<Rightarrow> pyerror + sample list" where
  "kinetic_rows A self [] = Inr []"
| "kinetic_rows A self (t # ts) =
     (case kinetic_row A self t of
        Inl e \<Rightarrow> Inl e
      | Inr r \<Rightarrow> (case kinetic_rows A self ts of Inl e \<Rightarrow> Inl e | Inr rs \<Rightarrow> Inr (r # rs)))"

text \<open>
  \<^verbatim>\<open>calculate_kinetic_data\<close>: \<^verbatim>\<open>dt = 8 / time_points\<close> is a division of two Python ints;
  then \<^verbatim>\<open>time_array = np.arange(0, 8 + dt, dt)\<close> and one row per element. Nothing is
  checked before the division.
\<close>

definition calculate_kinetic_data :: "arith \<Rightarrow> interactive_kinetic_model \<Rightarrow> pyerror + sample list" where
  "calculate_kinetic_data A self =
     (case truediv_int A 8 (time_points (parameters self)) of
        Inl e \<Rightarrow> Inl e
      | Inr dt \<Rightarrow>
          (case arange A 0 (rnd A (8 + dt)) dt of
             Inl e \<Rightarrow> Inl e
           | Inr time_array \<Rightarrow> kinetic_rows A self time_array))"

section \<open>The results panel\<close>

text \<open>
  Python's \<^verbatim>\<open>f"{x:.3f}"\<close>: the decimal expansion of \<open>x\<close> with the given number of
  digits after the point, rounded to nearest, ties to even.
\<close>

fun show_nat :: "nat \<Rightarrow> string" where
  "show_nat n =
     (if n < 10 then [''0123456789'' ! n]
      else show_nat (n div 10) @ [''0123456789'' ! (n mod 10)])"

declare show_nat.simps [simp del]

definition format_f :: "nat \<Rightarrow> real \<Rightarrow> string" where
  "format_f d x =
     (let q = nat (round_half_even (\<bar>x\<bar> * 10 ^ d));
          frac = show_nat (q mod 10 ^ d)
      in (if x < 0 then ''-'' else []) @ show_nat (q div 10 ^ d) @
         (if d = 0 then [] else ''.'' @ replicate (d - length frac) (CHR ''0'') @ frac))"

text \<open>
  \<^verbatim>\<open>update_results\<close>: \<^verbatim>\<open>potencia_rel = ki2 / ki1 if ki1 > 0 else 0\<close>, then the four
  strings are set.
\<close>

definition potencia_rel_value :: "arith \<Rightarrow> parameters \<Rightarrow> real" where
  "potencia_rel_value A p =
     (let ki1 = Ki_comp1 p; ki2 = Ki_comp2 p
      in if 0 < ki1 then rnd A (ki2 / ki1) else 0)"

definition update_results :: "arith \<Rightarrow> interactive_kinetic_model \<Rightarrow> interactive_kinetic_model" where
  "update_results A self =
     (let ki1 = Ki_comp1 (parameters self);
          ki2 = Ki_comp2 (parameters self);
          r = potencia_rel_value A (parameters self)
      in self\<lparr>results_vars :=
           \<lparr>ed50_comp1 = ''ED50 Comp1: '' @ format_f 3 ki1 @ '' mmol/L'',
            ed50_comp2 = ''ED50 Comp2: '' @ format_f 3 ki2 @ '' mmol/L'',
            potencia_rel = ''Potencia relativa: '' @ format_f 1 r @ ''x'',
            ki_ratio = ''Ratio Ki2/Ki1: '' @ format_f 1 r\<rparr>\<rparr>)"

section \<open>Basic facts about the model\<close>

lemmas num_ops = py_def np_def neg_def add_def sub_def mul_def truediv_def le_def np_exp_def
  np_log10_def result_kind_def f64_sub_def

lemma np_eq_iff [simp]: "np a = np b \<longleftrightarrow> a = b"
  by (simp add: np_def)

lemma rnd_exact [simp]: "rnd exact x = x"
  by (simp add: exact_def)

lemma rnd_binary64 [simp]: "rnd (binary64 e l) = round_binary64"
  by (simp add: binary64_def)

lemma exp_fn_binary64 [simp]: "exp_fn (binary64 e l) = e"
  by (simp add: binary64_def)

lemma rnd_float64 [simp]: "rnd float64 = round_binary64"
  by (simp add: float64_def)

lemma exp_fn_float64 [simp]: "exp_fn float64 = exp64"
  by (simp add: float64_def)

subsection \<open>The rounding is to nearest, and monotone\<close>

text \<open>
  \<open>exponent2\<close> is the binary exponent of its argument, and \<open>round_binary64\<close> moves
  its argument by at most half a unit in the last of 53 places. It is odd, it never
  reverses an order, and it keeps positive numbers positive (there is no underflow in
  it).
\<close>

lemma pow2_pos: "0 < pow2 e"
  by (simp add: pow2_def)

lemma exponent2_bounds:
  assumes "x \<noteq> 0"
  shows "pow2 (exponent2 x) \<le> \<bar>x\<bar> \<and> \<bar>x\<bar> < pow2 (exponent2 x + 1)"
proof (cases "1 \<le> \<bar>x\<bar>")
  case True
  define m where "m = \<lfloor>\<bar>x\<bar>\<rfloor>"
  have m: "0 < m" using True by (simp add: m_def)
  have e: "exponent2 x = bitlen m - 1" using True by (simp add: exponent2_def m_def)
  have b: "2 ^ nat (bitlen m - 1) \<le> m" "m < 2 ^ nat (bitlen m)"
    using bitlen_bounds [OF m] by simp_all
  have bl: "0 < bitlen m" using m by (simp add: bitlen_alt_def)
  have "(2::real) ^ nat (bitlen m - 1) \<le> of_int m"
    using b(1) by (metis of_int_le_iff of_int_numeral of_int_power)
  also have "\<dots> \<le> \<bar>x\<bar>" by (simp add: m_def)
  finally have lo: "pow2 (exponent2 x) \<le> \<bar>x\<bar>"
    using bl by (simp add: e pow2_def)
  have "m + 1 \<le> 2 ^ nat (bitlen m)" using b(2) by simp
  then have "of_int (m + 1) \<le> (2::real) ^ nat (bitlen m)"
    by (metis of_int_le_iff of_int_numeral of_int_power)
  moreover have "\<bar>x\<bar> < of_int (m + 1)"
    by (simp add: m_def)
  ultimately have "\<bar>x\<bar> < 2 ^ nat (bitlen m)" by linarith
  then have hi: "\<bar>x\<bar> < pow2 (exponent2 x + 1)"
    using bl by (simp add: e pow2_def)
  show ?thesis using lo hi by simp
next
  case False
  define y where "y = 1 / \<bar>x\<bar>"
  define c where "c = \<lceil>y\<rceil>"
  have x: "0 < \<bar>x\<bar>" "\<bar>x\<bar> < 1" using assms False by simp_all
  have y: "1 < y" using x by (simp add: y_def)
  have c: "2 \<le> c" using y by (simp add: c_def le_ceiling_iff)
  define b where "b = bitlen (c - 1)"
  have e: "exponent2 x = - b" using False by (simp add: exponent2_def b_def c_def y_def)
  have bb: "2 ^ nat (b - 1) \<le> c - 1" "c - 1 < 2 ^ nat b"
    using bitlen_bounds [of "c - 1"] c by (simp_all add: b_def)
  have bl: "0 < b" using c by (simp add: b_def bitlen_alt_def)
  have "c \<le> 2 ^ nat b" using bb(2) by simp
  then have "of_int c \<le> (2::real) ^ nat b"
    by (metis of_int_le_iff of_int_numeral of_int_power)
  moreover have "y \<le> of_int c" by (simp add: c_def)
  ultimately have yhi: "y \<le> 2 ^ nat b" by linarith
  have "(2::real) ^ nat (b - 1) \<le> of_int (c - 1)"
    using bb(1) by (metis of_int_le_iff of_int_numeral of_int_power)
  moreover have "of_int (c - 1) < y"
    unfolding c_def by (metis less_ceiling_iff zle_diff1_eq order_refl)
  ultimately have ylo: "2 ^ nat (b - 1) < y" by linarith
  have "1 / 2 ^ nat b \<le> \<bar>x\<bar>"
    using yhi x by (simp add: y_def field_simps)
  then have lo: "pow2 (exponent2 x) \<le> \<bar>x\<bar>"
    using bl by (simp add: e pow2_def)
  have "\<bar>x\<bar> < 1 / 2 ^ nat (b - 1)"
    using ylo x by (simp add: y_def field_simps)
  moreover have "pow2 (- b + 1) = 1 / 2 ^ nat (b - 1)"
    using bl by (cases "b = 1") (simp_all add: pow2_def)
  ultimately have hi: "\<bar>x\<bar> < pow2 (exponent2 x + 1)"
    by (simp add: e)
  show ?thesis using lo hi by simp
qed

lemma round_half_even_error: "\<bar>of_int (round_half_even z) - z\<bar> \<le> 1 / 2"
  unfolding round_half_even_def Let_def by (auto; linarith)

lemma round_binary64_error:
  assumes "x \<noteq> 0"
  shows "\<bar>round_binary64 x - x\<bar> \<le> pow2 (exponent2 x - 52) / 2"
proof -
  define u where "u = pow2 (exponent2 x - 52)"
  have u: "0 < u" by (simp add: u_def pow2_pos)
  have "\<bar>of_int (round_half_even (x / u)) - x / u\<bar> \<le> 1 / 2"
    by (rule round_half_even_error)
  then have "\<bar>of_int (round_half_even (x / u)) - x / u\<bar> * u \<le> 1 / 2 * u"
    using u by (simp add: mult_right_mono)
  moreover have "\<bar>of_int (round_half_even (x / u)) - x / u\<bar> * u =
      \<bar>(of_int (round_half_even (x / u)) - x / u) * u\<bar>"
    using u by (simp add: abs_mult)
  moreover have "(of_int (round_half_even (x / u)) - x / u) * u =
      of_int (round_half_even (x / u)) * u - x"
    using u by (simp add: left_diff_distrib)
  ultimately show ?thesis
    using assms by (simp add: round_binary64_def Let_def u_def)
qed

lemma round_half_even_cases:
  "round_half_even z = \<lfloor>z\<rfloor> \<or> round_half_even z = \<lfloor>z\<rfloor> + 1"
  by (simp add: round_half_even_def Let_def)

lemma round_half_even_of_int [simp]: "round_half_even (of_int n) = n"
  by (simp add: round_half_even_def Let_def)

lemma round_half_even_numeral [simp]: "round_half_even (numeral n) = numeral n"
  using round_half_even_of_int [of "numeral n"] by simp

lemma round_half_even_mono:
  assumes "a \<le> b"
  shows "round_half_even a \<le> round_half_even b"
proof (cases "\<lfloor>a\<rfloor> < \<lfloor>b\<rfloor>")
  case True
  have "round_half_even a \<le> \<lfloor>a\<rfloor> + 1"
    using round_half_even_cases [of a] by auto
  also have "\<dots> \<le> \<lfloor>b\<rfloor>" using True by simp
  also have "\<dots> \<le> round_half_even b"
    using round_half_even_cases [of b] by auto
  finally show ?thesis .
next
  case False
  then have eq: "\<lfloor>a\<rfloor> = \<lfloor>b\<rfloor>"
    using assms floor_mono [of a b] by simp
  then have "a - of_int \<lfloor>a\<rfloor> \<le> b - of_int \<lfloor>b\<rfloor>"
    using assms by simp
  then show ?thesis
    unfolding round_half_even_def Let_def eq by auto
qed

lemma round_half_even_uminus: "round_half_even (- z) = - round_half_even z"
proof (cases "z = of_int \<lfloor>z\<rfloor>")
  case True
  then obtain n where "z = of_int n" by blast
  then have "- z = of_int (- n)" by simp
  then show ?thesis
    using \<open>z = of_int n\<close> by (metis round_half_even_of_int)
next
  case False
  then have fl: "\<lfloor>- z\<rfloor> = - \<lfloor>z\<rfloor> - 1"
    by (metis ceiling_altdef ceiling_def diff_minus_eq_add minus_diff_eq add.inverse_inverse
        uminus_add_conv_diff minus_add_distrib)
  have d: "0 < z - of_int \<lfloor>z\<rfloor>" "z - of_int \<lfloor>z\<rfloor> < 1"
    using False by (simp_all, linarith+)
  have ev: "even (- \<lfloor>z\<rfloor> - 1) \<longleftrightarrow> odd \<lfloor>z\<rfloor>"
    by simp
  show ?thesis
    unfolding round_half_even_def Let_def fl using d ev
    by (auto simp add: algebra_simps)
qed

lemma pow2_powr: "pow2 e = 2 powr (of_int e)"
proof (cases "0 \<le> e")
  case True
  then have "(2::real) powr (of_int e) = 2 powr (real (nat e))" by simp
  also have "\<dots> = 2 ^ nat e" by (simp add: powr_realpow)
  finally show ?thesis using True by (simp add: pow2_def)
next
  case False
  then have "(2::real) powr (of_int e) = 2 powr (- real (nat (- e)))" by simp
  also have "\<dots> = 1 / 2 powr (real (nat (- e)))" by (simp add: powr_minus divide_inverse)
  also have "\<dots> = 1 / 2 ^ nat (- e)" by (simp add: powr_realpow)
  finally show ?thesis using False by (simp add: pow2_def)
qed

lemma pow2_mono: "a \<le> b \<Longrightarrow> pow2 a \<le> pow2 b"
  by (simp add: pow2_powr)

lemma pow2_add: "pow2 (a + b) = pow2 a * pow2 b"
  by (simp add: pow2_powr powr_add)

lemma exponent2_mono_pos:
  assumes "0 < x" "x \<le> y"
  shows "exponent2 x \<le> exponent2 y"
proof (rule ccontr)
  assume "\<not> exponent2 x \<le> exponent2 y"
  then have "exponent2 y + 1 \<le> exponent2 x" by simp
  then have "pow2 (exponent2 y + 1) \<le> pow2 (exponent2 x)" by (rule pow2_mono)
  moreover have "y < pow2 (exponent2 y + 1)"
    using exponent2_bounds [of y] assms by simp
  moreover have "pow2 (exponent2 x) \<le> x"
    using exponent2_bounds [of x] assms by simp
  ultimately show False using assms by linarith
qed

lemma round_binary64_bounds:
  assumes "0 < x"
  shows "pow2 (exponent2 x) \<le> round_binary64 x \<and> round_binary64 x \<le> pow2 (exponent2 x + 1)"
proof -
  define e where "e = exponent2 x"
  define u where "u = pow2 (e - 52)"
  have u: "0 < u" by (simp add: u_def pow2_pos)
  have b: "pow2 e \<le> x" "x < pow2 (e + 1)"
    using exponent2_bounds [of x] assms by (simp_all add: e_def)
  have "pow2 e = pow2 (52 + (e - 52))" by simp
  also have "\<dots> = pow2 52 * u" by (simp only: pow2_add u_def)
  finally have pe: "pow2 e = 2 ^ 52 * u" by (simp add: pow2_def)
  have "e + 1 = 53 + (e - 52)" by simp
  then have "pow2 (e + 1) = pow2 (53 + (e - 52))" by (rule arg_cong)
  also have "\<dots> = pow2 53 * u" by (simp only: pow2_add u_def)
  finally have pe1: "pow2 (e + 1) = 2 ^ 53 * u" by (simp add: pow2_def)
  have lo: "of_int (2 ^ 52) \<le> x / u"
    using b(1) u by (simp add: pe pos_le_divide_eq)
  have hi: "x / u \<le> of_int (2 ^ 53)"
    using b(2) u by (simp add: pe1 pos_divide_le_eq)
  have "2 ^ 52 \<le> round_half_even (x / u)"
    using round_half_even_mono [OF lo] by simp
  then have l: "(2::real) ^ 52 \<le> of_int (round_half_even (x / u))"
    by (metis of_int_le_iff of_int_numeral of_int_power)
  have "round_half_even (x / u) \<le> 2 ^ 53"
    using round_half_even_mono [OF hi] by simp
  then have h: "of_int (round_half_even (x / u)) \<le> (2::real) ^ 53"
    by (metis of_int_le_iff of_int_numeral of_int_power)
  have r: "round_binary64 x = of_int (round_half_even (x / u)) * u"
    using assms by (simp add: round_binary64_def Let_def u_def e_def)
  have "2 ^ 52 * u \<le> of_int (round_half_even (x / u)) * u"
    using l u by (simp add: mult_right_mono)
  moreover have "of_int (round_half_even (x / u)) * u \<le> 2 ^ 53 * u"
    using h u by (simp add: mult_right_mono)
  ultimately show ?thesis
    unfolding r pe [symmetric] pe1 [symmetric] e_def [symmetric] by simp
qed

lemma round_binary64_zero [simp]: "round_binary64 0 = 0"
  by (simp add: round_binary64_def)

lemma round_binary64_pos: "0 < x \<Longrightarrow> 0 < round_binary64 x"
  using round_binary64_bounds [of x] pow2_pos [of "exponent2 x"] by linarith

lemma round_binary64_mono_pos:
  assumes "0 < x" "x \<le> y"
  shows "round_binary64 x \<le> round_binary64 y"
proof (cases "exponent2 x = exponent2 y")
  case True
  define u where "u = pow2 (exponent2 x - 52)"
  have u: "0 < u" by (simp add: u_def pow2_pos)
  have "x / u \<le> y / u" using assms u by (simp add: divide_right_mono)
  then have "round_half_even (x / u) \<le> round_half_even (y / u)"
    by (rule round_half_even_mono)
  then have "of_int (round_half_even (x / u)) * u \<le> of_int (round_half_even (y / u)) * u"
    using u by (simp add: mult_right_mono)
  then show ?thesis
    using assms True by (simp add: round_binary64_def Let_def u_def)
next
  case False
  then have "exponent2 x + 1 \<le> exponent2 y"
    using exponent2_mono_pos [OF assms] by simp
  then have "pow2 (exponent2 x + 1) \<le> pow2 (exponent2 y)" by (rule pow2_mono)
  moreover have "round_binary64 x \<le> pow2 (exponent2 x + 1)"
    using round_binary64_bounds [OF assms(1)] by simp
  moreover have "pow2 (exponent2 y) \<le> round_binary64 y"
    using round_binary64_bounds [of y] assms by simp
  ultimately show ?thesis by linarith
qed

lemma round_binary64_uminus: "round_binary64 (- x) = - round_binary64 x"
  by (simp add: round_binary64_def Let_def exponent2_def round_half_even_uminus)

lemma round_binary64_mono:
  assumes "x \<le> y"
  shows "round_binary64 x \<le> round_binary64 y"
proof -
  consider "0 < x" | "x = 0" | "x < 0" "y < 0" | "x < 0" "y = 0" | "x < 0" "0 < y"
    using assms by linarith
  then show ?thesis
  proof cases
    case 1
    then show ?thesis using assms by (rule round_binary64_mono_pos)
  next
    case 2
    then show ?thesis
      using assms round_binary64_pos [of y] by (cases "y = 0") simp_all
  next
    case 3
    then have "round_binary64 (- y) \<le> round_binary64 (- x)"
      using assms by (intro round_binary64_mono_pos) simp_all
    then show ?thesis by (simp add: round_binary64_uminus)
  next
    case 4
    then have "0 < round_binary64 (- x)" by (intro round_binary64_pos) simp
    then have "round_binary64 x < 0" by (simp add: round_binary64_uminus)
    then show ?thesis using 4 by simp
  next
    case 5
    then have "0 < round_binary64 (- x)" "0 < round_binary64 y"
      by (simp_all add: round_binary64_pos)
    then show ?thesis by (simp add: round_binary64_uminus)
  qed
qed

lemma round_binary64_one [simp]: "round_binary64 1 = 1"
  by code_simp

lemma round_binary64_nonneg: "0 \<le> x \<Longrightarrow> 0 \<le> round_binary64 x"
  using round_binary64_mono [of 0 x] by simp


subsection \<open>The library exponential\<close>





subsection \<open>Which calls can raise\<close>

text \<open>
  A division whose divisor is a numpy scalar never raises. So \<^verbatim>\<open>inhibition_model\<close> on a
  numpy concentration, \<^verbatim>\<open>population_growth_model\<close> (whose divisor contains \<^verbatim>\<open>np.exp\<close>)
  and every row of the loop return.
\<close>

lemma inhibition_model_np_returns:
  "\<exists>v. inhibition_model A (NpFloat64, x) m Ki = Inr (NpFloat64, v)"
  by (simp add: inhibition_model_def num_ops)

lemma population_growth_model_returns:
  "\<exists>v. population_growth_model A t m Kmax N0 = Inr (NpFloat64, v)"
  by (simp add: population_growth_model_def num_ops)

lemma pharmacokinetic_model_kind: "fst (pharmacokinetic_model A t c0 a e) = NpFloat64"
  by (simp add: pharmacokinetic_model_def num_ops Let_def)

lemma kinetic_row_returns: "\<exists>r. kinetic_row A self t = Inr r \<and> time r = np t"
proof -
  define p where "p = parameters self"
  define ki where "ki = (if selected_compound self = ''compound1'' then Ki_comp1 p else Ki_comp2 p)"
  obtain c where c: "pharmacokinetic_model A (np t) (py (initial_conc p)) (py (ka p)) (py (ke p))
      = (NpFloat64, c)"
    using pharmacokinetic_model_kind by (metis prod.collapse)
  obtain v where v: "inhibition_model A (NpFloat64, c) (py (mu_max p)) (py ki) = Inr (NpFloat64, v)"
    using inhibition_model_np_returns by blast
  obtain b where b: "population_growth_model A (np t) (NpFloat64, v) (py (K_max p)) (py (rnd A 1000000))
      = Inr (NpFloat64, b)"
    using population_growth_model_returns by blast
  have "kinetic_row A self t =
      Inr \<lparr>time = np t, concentration = (NpFloat64, c), mu = (NpFloat64, v),
           biomass = np_log10 A (NpFloat64, b), raw_biomass = (NpFloat64, b)\<rparr>"
    unfolding kinetic_row_def Let_def p_def [symmetric] ki_def [symmetric]
    by (simp add: c v b)
  then show ?thesis by simp
qed

lemma kinetic_rows_returns:
  "\<exists>rs. kinetic_rows A self ts = Inr rs \<and> map time rs = map np ts"
proof (induction ts)
  case Nil
  then show ?case by simp
next
  case (Cons t ts)
  then obtain rs where rs: "kinetic_rows A self ts = Inr rs" "map time rs = map np ts" by blast
  obtain r where r: "kinetic_row A self t = Inr r" "time r = np t"
    using kinetic_row_returns by blast
  show ?case by (simp add: rs r)
qed

lemma kinetic_rows_length_last:
  assumes "kinetic_rows A self ts = Inr rs" "ts \<noteq> []"
  shows "length rs = length ts \<and> time (last rs) = np (last ts)"
proof -
  obtain rs' where rs': "kinetic_rows A self ts = Inr rs'" "map time rs' = map np ts"
    using kinetic_rows_returns by blast
  then have eq: "map time rs = map np ts"
    using assms by simp
  then have len: "length rs = length ts"
    using map_eq_imp_length_eq by blast
  then have "rs \<noteq> []" using assms by auto
  then have "time (last rs) = last (map time rs)"
    by (simp add: last_map)
  also have "\<dots> = np (last ts)"
    using eq assms by (simp add: last_map)
  finally show ?thesis using len by simp
qed

lemma arange_returns:
  "step \<noteq> 0 \<Longrightarrow>
   \<exists>ts. arange A start stop step = Inr ts \<and>
        length ts = nat \<lceil>rnd A (rnd A (stop - start) / step)\<rceil> \<and>
        (\<forall>i < length ts. 2 \<le> i \<longrightarrow>
           ts ! i = rnd A (start + rnd A (real i * rnd A (rnd A (start + step) - start))))"
  by (simp add: arange_def Let_def)

subsection \<open>The three models on finite arguments\<close>


lemma inhibition_model_fin:
  "Ki \<noteq> 0 \<Longrightarrow> rnd A (1 + rnd A (c / Ki)) \<noteq> 0 \<Longrightarrow>
   inhibition_model A (j, Fin c) (k, Fin m) (l, Fin Ki) =
     Inr (result_kind k (result_kind j l), Fin (rnd A (m / rnd A (1 + rnd A (c / Ki)))))"
  by (auto simp add: inhibition_model_def num_ops)




subsection \<open>Some doubles\<close>

lemma mu_max_double: "round_binary64 (95 / 100) = 8556839292003942 / 9007199254740992"
  by code_simp

lemma Ki_comp1_double: "round_binary64 (12 / 100) = 8646911284551352 / 72057594037927936"
  by code_simp





section \<open>Division by zero\<close>

text \<open>
  C1, as stated: for every muMax, \<^verbatim>\<open>inhibition_model\<close> with \<open>Ki = 0\<close> fails with a
  distinct error and never returns a number. The function has no guard of its own; what
  happens is what \<^verbatim>\<open>concentration / Ki\<close> does. Every call in the program passes a numpy
  scalar as concentration, and then the call returns: with the default parameters, a
  concentration of 0.2 and \<open>Ki = 0\<close> it returns 0.
\<close>

theorem inhibition_model_zero_Ki_returns_number:
  "inhibition_model exact (np (2 / 10)) (py (95 / 100)) (py 0) = Inr (np 0)"
  by (simp add: inhibition_model_def num_ops)

text \<open>
  C1, amended: with \<open>Ki = 0\<close> given as a Python float, \<^verbatim>\<open>inhibition_model\<close> raises
  \<^verbatim>\<open>ZeroDivisionError\<close> when the concentration is a Python float, whatever muMax is;
  when the concentration is a numpy scalar it returns without raising, 0 for a nonzero
  concentration and NaN for a zero concentration. This holds for every rounding.
\<close>

theorem inhibition_model_zero_Ki:
  "inhibition_model A (PyFloat, x) m (PyFloat, Fin 0) = Inl ZeroDivisionError \<and>
   (c \<noteq> 0 \<longrightarrow>
      inhibition_model A (NpFloat64, Fin c) (k, Fin v) (PyFloat, Fin 0) = Inr (NpFloat64, Fin 0)) \<and>
   inhibition_model A (NpFloat64, Fin 0) (k, Fin v) (PyFloat, Fin 0) = Inr (NpFloat64, NaN)"
  by (simp add: inhibition_model_def num_ops)

theorem inhibition_model_zero_Ki_witness:
  "inhibition_model exact (py (2 / 10)) (py (95 / 100)) (py 0) = Inl ZeroDivisionError \<and>
   ((2 / 10 :: real) \<noteq> 0 \<and>
      inhibition_model exact (np (2 / 10)) (py (95 / 100)) (py 0) = Inr (np 0)) \<and>
   inhibition_model exact (np 0) (py (95 / 100)) (py 0) = Inr (NpFloat64, NaN)"
  using inhibition_model_zero_Ki [where A = exact and x = "Fin (2 / 10)" and m = "py (95 / 100)"
      and c = "2 / 10" and k = PyFloat and v = "95 / 100"]
  by (simp add: py_def np_def)

text \<open>
  C3, as stated: with \<open>time_points = 0\<close> the division of the step computation is guarded
  and surfaced as a distinct configuration error, not as an unguarded division by zero.
  \<^verbatim>\<open>calculate_kinetic_data\<close> checks nothing: what it raises is what the operator \<^verbatim>\<open>/\<close>
  raises on \<^verbatim>\<open>8 / 0\<close>, Python's \<^verbatim>\<open>ZeroDivisionError\<close>.
\<close>

theorem calculate_kinetic_data_unguarded:
  "truediv_int float64 8 0 = Inl ZeroDivisionError \<and>
   calculate_kinetic_data float64
     (init float64\<lparr>parameters := default_parameters float64\<lparr>time_points := 0\<rparr>\<rparr>) =
     Inl ZeroDivisionError"
  by (simp add: calculate_kinetic_data_def truediv_int_def)

text \<open>
  C3, amended: with \<open>time_points = 0\<close> the division \<^verbatim>\<open>8 / time_points\<close> of the step
  computation is not guarded: it raises Python's \<^verbatim>\<open>ZeroDivisionError\<close>, and
  \<^verbatim>\<open>calculate_kinetic_data\<close> ends with that same error; no step and no sample is
  computed. This holds for every rounding.
\<close>

theorem calculate_kinetic_data_zero_time_points:
  "time_points (parameters self) = 0 \<Longrightarrow>
   truediv_int A 8 (time_points (parameters self)) = Inl ZeroDivisionError \<and>
   calculate_kinetic_data A self = Inl ZeroDivisionError"
  by (simp add: calculate_kinetic_data_def truediv_int_def)

theorem calculate_kinetic_data_zero_time_points_witness:
  "time_points (parameters (init float64\<lparr>parameters := default_parameters float64\<lparr>time_points := 0\<rparr>\<rparr>)) = 0 \<and>
   calculate_kinetic_data float64 (init float64\<lparr>parameters := default_parameters float64\<lparr>time_points := 0\<rparr>\<rparr>) =
     Inl ZeroDivisionError"
  using calculate_kinetic_data_zero_time_points
    [of "init float64\<lparr>parameters := default_parameters float64\<lparr>time_points := 0\<rparr>\<rparr>" float64]
  by simp

section \<open>The three closed forms in binary64\<close>

text \<open>
  The statements of this section are about the program's arithmetic: \<open>binary64 e l\<close>
  with the library exponential \<open>e\<close> only assumed to be monotone, non-negative, 1 at 0
  and 0 below \<open>-746\<close>, as far as a statement needs it. The arguments are reals; where a
  statement needs an argument to be a double, it says so (\<open>round_binary64 x = x\<close>).
\<close>

lemma inhibition_denominator:
  assumes "0 < Ki" "0 \<le> c"
  shows "1 \<le> round_binary64 (1 + round_binary64 (c / Ki))"
proof -
  have "0 \<le> round_binary64 (c / Ki)"
    using assms by (intro round_binary64_nonneg) simp
  then have "round_binary64 1 \<le> round_binary64 (1 + round_binary64 (c / Ki))"
    by (intro round_binary64_mono) simp
  then show ?thesis by simp
qed

lemma inhibition_model_float64:
  assumes "Ki \<noteq> 0" "round_binary64 (1 + round_binary64 (c / Ki)) = d" "d \<noteq> 0"
    "round_binary64 (m / d) = y"
  shows "inhibition_model float64 (np c) (py m) (py Ki) = Inr (np y)"
  using assms inhibition_model_fin [of Ki float64 c NpFloat64 PyFloat m PyFloat]
  by (simp add: np_def py_def result_kind_def)

lemma mu_max_over_one:
  "round_binary64 (8556839292003942 / 9007199254740992 / 1) = 8556839292003942 / 9007199254740992"
  by code_simp

lemma denominator_at_zero:
  "round_binary64 (1 + round_binary64 (0 / (8646911284551352 / 72057594037927936))) = 1"
  by code_simp

lemma denominator_at_tiny:
  "round_binary64 (1 + round_binary64 (1 / 2 ^ 60 / (8646911284551352 / 72057594037927936))) = 1"
  by code_simp

lemma denominator_negative_mumax:
  "round_binary64 (1 + round_binary64 (0 / 1)) = 1" "round_binary64 (1 + round_binary64 (1 / 1)) = 2"
  "round_binary64 (- 1 / 1) = - 1" "round_binary64 (- 1 / 2) = - 1 / 2"
  by code_simp+

text \<open>
  C5, as stated: for every muMax the inhibition response is strictly decreasing in the
  concentration over [0, 1]. With the default \<open>muMax = 0.95\<close> and \<open>Ki = 0.12\<close> the
  response is 0.95 at concentration 0 and again at concentration \<open>2^-60\<close>: the quotient
  \<open>concentration / Ki\<close> is lost in \<open>1 + concentration / Ki\<close>. And with \<open>muMax = -1\<close>
  and \<open>Ki = 1\<close> the response increases, from -1 at concentration 0 to -0.5 at
  concentration 1.
\<close>

theorem inhibition_model_not_strict:
  "inhibition_model float64 (np 0) (py (round_binary64 (95 / 100))) (py (round_binary64 (12 / 100))) =
     Inr (np (round_binary64 (95 / 100))) \<and>
   inhibition_model float64 (np (1 / 2 ^ 60)) (py (round_binary64 (95 / 100)))
       (py (round_binary64 (12 / 100))) =
     Inr (np (round_binary64 (95 / 100))) \<and>
   inhibition_model float64 (np 0) (py (- 1)) (py 1) = Inr (np (- 1)) \<and>
   inhibition_model float64 (np 1) (py (- 1)) (py 1) = Inr (np (- 1 / 2))"
proof -
  have Ki: "(8646911284551352 / 72057594037927936 :: real) \<noteq> 0" "(1::real) \<noteq> 0" "(2::real) \<noteq> 0"
    by simp_all
  show ?thesis
    unfolding mu_max_double Ki_comp1_double
    using inhibition_model_float64 [OF Ki(1) denominator_at_zero Ki(2) mu_max_over_one]
      inhibition_model_float64 [OF Ki(1) denominator_at_tiny Ki(2) mu_max_over_one]
      inhibition_model_float64 [OF Ki(2) denominator_negative_mumax(1) Ki(2)
        denominator_negative_mumax(3)]
      inhibition_model_float64 [OF Ki(2) denominator_negative_mumax(2) Ki(3)
        denominator_negative_mumax(4)]
    by (intro conjI)
qed

text \<open>
  C5, amended: for every \<open>Ki > 0\<close>, the response at concentration 0 is muMax, for every
  muMax (a double); and for every \<open>muMax \<ge> 0\<close> the response does not increase as the
  concentration increases over [0, 1].
\<close>

theorem inhibition_model_boundary_monotone:
  "0 < Ki \<Longrightarrow>
   (round_binary64 m = m \<longrightarrow>
      inhibition_model (binary64 e l) (j, Fin 0) (k, Fin m) (i, Fin Ki) =
        Inr (result_kind k (result_kind j i), Fin m)) \<and>
   (0 \<le> m \<longrightarrow> 0 \<le> c1 \<longrightarrow> c1 \<le> c2 \<longrightarrow> c2 \<le> 1 \<longrightarrow>
     (\<exists>y1 y2. inhibition_model (binary64 e l) (j, Fin c1) (k, Fin m) (i, Fin Ki) =
                Inr (result_kind k (result_kind j i), Fin y1) \<and>
              inhibition_model (binary64 e l) (j, Fin c2) (k, Fin m) (i, Fin Ki) =
                Inr (result_kind k (result_kind j i), Fin y2) \<and>
              y2 \<le> y1))"
proof (intro conjI impI)
  assume Ki: "0 < Ki"
  {
    assume m: "round_binary64 m = m"
    show "inhibition_model (binary64 e l) (j, Fin 0) (k, Fin m) (i, Fin Ki) =
        Inr (result_kind k (result_kind j i), Fin m)"
      using Ki m inhibition_model_fin [of Ki "binary64 e l" 0 j k m i] by simp
  }
  assume m: "0 \<le> m" and c: "0 \<le> c1" "c1 \<le> c2" "c2 \<le> 1"
  let ?d1 = "round_binary64 (1 + round_binary64 (c1 / Ki))"
  let ?d2 = "round_binary64 (1 + round_binary64 (c2 / Ki))"
  have d1: "1 \<le> ?d1" using inhibition_denominator [OF Ki c(1)] .
  have c2: "0 \<le> c2" using c by simp
  have d2: "1 \<le> ?d2" using inhibition_denominator [OF Ki c2] .
  have "c1 / Ki \<le> c2 / Ki"
    using Ki c by (simp add: divide_right_mono)
  then have "round_binary64 (c1 / Ki) \<le> round_binary64 (c2 / Ki)"
    by (rule round_binary64_mono)
  then have d12: "?d1 \<le> ?d2"
    by (intro round_binary64_mono) simp
  have "m / ?d2 \<le> m / ?d1"
    using m d1 d12 by (intro divide_left_mono) simp_all
  then have "round_binary64 (m / ?d2) \<le> round_binary64 (m / ?d1)"
    by (rule round_binary64_mono)
  then show "\<exists>y1 y2. inhibition_model (binary64 e l) (j, Fin c1) (k, Fin m) (i, Fin Ki) =
                Inr (result_kind k (result_kind j i), Fin y1) \<and>
              inhibition_model (binary64 e l) (j, Fin c2) (k, Fin m) (i, Fin Ki) =
                Inr (result_kind k (result_kind j i), Fin y2) \<and>
              y2 \<le> y1"
    using Ki d1 d2 inhibition_model_fin [of Ki "binary64 e l" c1 j k m i]
      inhibition_model_fin [of Ki "binary64 e l" c2 j k m i]
    by simp
qed

theorem inhibition_model_boundary_monotone_witness:
  "(0::real) < 1 \<and> round_binary64 2 = 2 \<and>
   inhibition_model float64 (np 0) (py 2) (py 1) = Inr (np 2) \<and>
   (0::real) \<le> 2 \<and> (0::real) \<le> 0 \<and> (0::real) \<le> 1 \<and>
   inhibition_model float64 (np 1) (py 2) (py 1) = Inr (np 1) \<and>
   (\<exists>y1 y2. inhibition_model float64 (np 0) (py 2) (py 1) = Inr (np y1) \<and>
            inhibition_model float64 (np 1) (py 2) (py 1) = Inr (np y2) \<and> y2 \<le> y1)"
proof -
  have r: "round_binary64 2 = 2" by code_simp
  have d: "round_binary64 (1 + round_binary64 (1 / 1)) = 2" "round_binary64 (2 / 2) = 1"
    by code_simp+
  have v: "inhibition_model float64 (np 1) (py 2) (py 1) = Inr (np 1)"
    using inhibition_model_float64 [of 1 1 2 2 1] d by simp
  show ?thesis
    using r v inhibition_model_boundary_monotone [where Ki = 1 and j = NpFloat64 and k = PyFloat
      and i = PyFloat and m = 2 and ?c1.0 = 0 and ?c2.0 = 1 and e = exp64 and l = log10_64]
    by (auto simp add: py_def np_def result_kind_def float64_def)
qed


























section \<open>The results panel\<close>

lemma default_ratio_near:
  "\<bar>round_binary64 (round_binary64 10 / round_binary64 (12 / 100)) - 8333 / 100\<bar> < 1 / 100"
  by code_simp

lemma format_default_ki1: "format_f 3 (round_binary64 (12 / 100)) = ''0.120''"
  by code_simp

lemma format_default_ki2: "format_f 3 (round_binary64 10) = ''10.000''"
  by code_simp

lemma format_default_ratio:
  "format_f 1 (round_binary64 (round_binary64 10 / round_binary64 (12 / 100))) = ''83.3''"
  by code_simp


lemma Ki_comp1_default_pos: "0 < round_binary64 (12 / 100)"
  by (intro round_binary64_pos) simp

text \<open>
  C7: for \<open>Ki_comp1 > 0\<close> the relative potency computed by \<^verbatim>\<open>update_results\<close> is the
  quotient \<^verbatim>\<open>ki2 / ki1\<close> of the program's division (the float nearest to
  \<open>Ki_comp2 / Ki_comp1\<close>), and the panel shows \<open>Ki_comp1\<close> as the ED50 of compound 1,
  \<open>Ki_comp2\<close> as the ED50 of compound 2 and that quotient as the relative potency (three,
  three and one digits after the point). This holds for every rounding. With the default
  parameters (the doubles nearest to 0.12 and 10) the relative potency is within 0.01 of
  83.33.
\<close>

theorem update_results_metrics:
  "0 < Ki_comp1 (parameters self) \<Longrightarrow>
   potencia_rel_value A (parameters self) =
     rnd A (Ki_comp2 (parameters self) / Ki_comp1 (parameters self)) \<and>
   results_vars (update_results A self) =
     \<lparr>ed50_comp1 = ''ED50 Comp1: '' @ format_f 3 (Ki_comp1 (parameters self)) @ '' mmol/L'',
      ed50_comp2 = ''ED50 Comp2: '' @ format_f 3 (Ki_comp2 (parameters self)) @ '' mmol/L'',
      potencia_rel = ''Potencia relativa: '' @
        format_f 1 (rnd A (Ki_comp2 (parameters self) / Ki_comp1 (parameters self))) @ ''x'',
      ki_ratio = ''Ratio Ki2/Ki1: '' @
        format_f 1 (rnd A (Ki_comp2 (parameters self) / Ki_comp1 (parameters self)))\<rparr> \<and>
   \<bar>potencia_rel_value float64 (default_parameters float64) - 8333 / 100\<bar> < 1 / 100"
  using default_ratio_near Ki_comp1_default_pos
  by (simp add: update_results_def Let_def potencia_rel_value_def default_parameters_def)

theorem update_results_metrics_witness:
  "0 < Ki_comp1 (parameters (init float64)) \<and>
   potencia_rel_value float64 (parameters (init float64)) =
     round_binary64 (round_binary64 10 / round_binary64 (12 / 100)) \<and>
   results_vars (update_results float64 (init float64)) =
     \<lparr>ed50_comp1 = ''ED50 Comp1: 0.120 mmol/L'',
      ed50_comp2 = ''ED50 Comp2: 10.000 mmol/L'',
      potencia_rel = ''Potencia relativa: 83.3x'',
      ki_ratio = ''Ratio Ki2/Ki1: 83.3''\<rparr>"
proof -
  have p: "Ki_comp1 (parameters (init float64)) = round_binary64 (12 / 100)"
    "Ki_comp2 (parameters (init float64)) = round_binary64 10"
    by (simp_all add: init_def default_parameters_def)
  have h: "0 < Ki_comp1 (parameters (init float64))"
    unfolding p by (rule Ki_comp1_default_pos)
  show ?thesis
    using h update_results_metrics [OF h, of float64]
    by (simp only: p rnd_float64 format_default_ki1 format_default_ki2 format_default_ratio) simp
qed

text \<open>
  The quotient is rounded before it is shown: with \<open>Ki_comp1 = 0.8\<close> and \<open>Ki_comp2 = 3\<close>
  it is the double 3.75, shown as 3.8.
\<close>

lemma format_rounded_quotient:
  "format_f 1 (round_binary64 (3 / round_binary64 (8 / 10))) = ''3.8''"
  "format_f 1 (3 / (8 / 10)) = ''3.8''"
  "round_binary64 (3 / round_binary64 (8 / 10)) = 15 / 4"
  by code_simp+



section \<open>The time series\<close>

subsection \<open>The length of the series\<close>

text \<open>
  In exact arithmetic the series has \<open>time_points + 1\<close> samples, at the times
  \<open>i * (8 / time_points)\<close>, from 0 to 8; this is also \<open>floor (8 / step) + 1\<close>.
\<close>

lemma arange_exact_grid:
  assumes "1 \<le> n"
  shows "arange exact 0 (8 + 8 / of_int n) (8 / of_int n) =
    Inr (map (\<lambda>i. real i * (8 / of_int n)) [0..<nat n + 1])"
proof -
  define D :: real where "D = 8 / of_int n"
  have n: "(0::real) < of_int n" using assms by simp
  then have D: "D \<noteq> 0" by (simp add: D_def)
  have "(8 + D - 0) / D = (of_int n + 1 :: real)"
    using n by (simp add: D_def field_simps)
  then have "\<lceil>(8 + D - 0) / D\<rceil> = n + 1"
    by (metis ceiling_of_int of_int_1 of_int_add)
  then have len: "nat \<lceil>(8 + D - 0) / D\<rceil> = nat n + 1"
    using assms by (simp add: nat_add_distrib)
  have F: "(\<lambda>i. if i = 0 then (0::real) else if i = 1 then 0 + D
                 else 0 + real i * (0 + D - 0)) = (\<lambda>i. real i * D)"
    by (rule ext) simp
  have "arange exact 0 (8 + D) D =
      Inr (map (\<lambda>i. if i = 0 then (0::real) else if i = 1 then 0 + D
                 else 0 + real i * (0 + D - 0)) [0..<nat \<lceil>(8 + D - 0) / D\<rceil>])"
    using D by (simp only: arange_def Let_def rnd_exact if_False)
  then have "arange exact 0 (8 + D) D = Inr (map (\<lambda>i. real i * D) [0..<nat n + 1])"
    by (simp only: F len)
  then show ?thesis
    unfolding D_def .
qed

lemma calculate_kinetic_data_exact_grid:
  assumes "1 \<le> time_points (parameters self)"
  shows "\<exists>rows. calculate_kinetic_data exact self = Inr rows \<and>
    length rows = nat (time_points (parameters self)) + 1 \<and>
    map time rows =
      map (\<lambda>i. np (real i * (8 / of_int (time_points (parameters self)))))
        [0..<nat (time_points (parameters self)) + 1] \<and>
    \<lfloor>8 / (8 / of_int (time_points (parameters self)) :: real)\<rfloor> + 1 =
      time_points (parameters self) + 1"
proof -
  define n where "n = time_points (parameters self)"
  let ?ts = "map (\<lambda>i. real i * (8 / of_int n)) [0..<nat n + 1]"
  have n: "1 \<le> n" using assms by (simp add: n_def)
  obtain rows where rows: "kinetic_rows exact self ?ts = Inr rows" "map time rows = map np ?ts"
    using kinetic_rows_returns by blast
  have "calculate_kinetic_data exact self =
      (case arange exact 0 (8 + 8 / of_int n) (8 / of_int n) of
         Inl e \<Rightarrow> Inl e | Inr time_array \<Rightarrow> kinetic_rows exact self time_array)"
    using n by (simp add: calculate_kinetic_data_def truediv_int_def n_def)
  also have "\<dots> = Inr rows"
    by (simp only: arange_exact_grid [OF n] rows(1) sum.case)
  finally have c: "calculate_kinetic_data exact self = Inr rows" .
  have "length rows = length ?ts"
    using rows(2) map_eq_imp_length_eq by blast
  then have l: "length rows = nat n + 1" by simp
  have m: "map time rows = map (\<lambda>i. np (real i * (8 / of_int n))) [0..<nat n + 1]"
    using rows(2) by (simp add: comp_def del: upt_Suc)
  have "8 / (8 / of_int n :: real) = of_int n"
    using n by simp
  then have f: "\<lfloor>8 / (8 / of_int n :: real)\<rfloor> + 1 = n + 1"
    by simp
  show ?thesis
    using c l m f unfolding n_def by blast
qed

text \<open>
  For a given rounding, the length of the series and the time of its last sample follow
  from five roundings.
\<close>

lemma calculate_kinetic_data_grid:
  assumes n: "time_points (parameters self) = n" "n \<noteq> 0"
    and dt: "rnd A (8 / of_int n) = dt" "dt \<noteq> 0"
    and stop: "rnd A (8 + dt) = stop"
    and len: "nat \<lceil>rnd A (rnd A (stop - 0) / dt)\<rceil> = Suc k" "2 \<le> k"
    and lst: "rnd A (0 + rnd A (real k * rnd A (rnd A (0 + dt) - 0))) = z"
  shows "\<exists>rows. calculate_kinetic_data A self = Inr rows \<and> length rows = Suc k \<and>
    time (last rows) = np z"
proof -
  obtain ts where ts: "arange A 0 stop dt = Inr ts"
    "length ts = nat \<lceil>rnd A (rnd A (stop - 0) / dt)\<rceil>"
    "\<forall>i < length ts. 2 \<le> i \<longrightarrow>
       ts ! i = rnd A (0 + rnd A (real i * rnd A (rnd A (0 + dt) - 0)))"
    using arange_returns [OF dt(2), of A 0 stop] by auto
  have l: "length ts = Suc k"
    using ts(2) len(1) by simp
  then have ne: "ts \<noteq> []" by auto
  then have "last ts = ts ! k"
    by (simp add: last_conv_nth l)
  also have "\<dots> = z"
    using ts(3) l len(2) lst by simp
  finally have z: "last ts = z" .
  obtain rows where rows: "kinetic_rows A self ts = Inr rows"
    using kinetic_rows_returns by blast
  have props: "length rows = length ts" "time (last rows) = np (last ts)"
    using kinetic_rows_length_last [OF rows ne] by simp_all
  have "calculate_kinetic_data A self =
      (case arange A 0 (rnd A (8 + rnd A (8 / of_int n))) (rnd A (8 / of_int n)) of
         Inl e \<Rightarrow> Inl e | Inr time_array \<Rightarrow> kinetic_rows A self time_array)"
    using n by (simp add: calculate_kinetic_data_def truediv_int_def)
  also have "\<dots> = Inr rows"
    by (simp only: dt(1) stop ts(1) rows sum.case)
  finally show ?thesis
    using props l z by simp
qed

text \<open>
  In binary64 with the default \<open>time_points = 100\<close>: 101 samples, the last at time 8.
\<close>

lemma dt100: "round_binary64 (8 / 100) = 5764607523034235 / 72057594037927936"
  by code_simp

lemma stop100:
  "round_binary64 (8 + 5764607523034235 / 72057594037927936) = 4548635623644201 / 562949953421312"
  by code_simp

lemma stop100_id:
  "round_binary64 (4548635623644201 / 562949953421312) = 4548635623644201 / 562949953421312"
  by code_simp

lemma quot100:
  "round_binary64 (4548635623644201 / 562949953421312 / (5764607523034235 / 72057594037927936)) = 101"
  by code_simp

lemma next100:
  "round_binary64 (5764607523034235 / 72057594037927936) = 5764607523034235 / 72057594037927936"
  by code_simp

lemma last100: "round_binary64 (100 * (5764607523034235 / 72057594037927936)) = 8"
  by code_simp

lemma eight_id: "round_binary64 8 = 8"
  by code_simp

lemma calculate_kinetic_data_default_grid:
  "\<exists>rows. calculate_kinetic_data (binary64 e l) (init (binary64 e l)) = Inr rows \<and> length rows = 101 \<and>
     time (last rows) = np 8"
proof -
  let ?A = "binary64 e l"
  have rnd: "rnd ?A = round_binary64" by (simp add: binary64_def)
  have n: "time_points (parameters (init (binary64 e l))) = 100" "(100::int) \<noteq> 0"
    by (simp_all add: init_def default_parameters_def)
  have dt: "rnd ?A (8 / of_int 100) = 5764607523034235 / 72057594037927936"
    "(5764607523034235 / 72057594037927936 :: real) \<noteq> 0"
    by (simp only: rnd of_int_numeral dt100) simp
  have stop: "rnd ?A (8 + 5764607523034235 / 72057594037927936) =
      4548635623644201 / 562949953421312"
    by (simp only: rnd stop100)
  have "rnd ?A (rnd ?A (4548635623644201 / 562949953421312 - 0) /
      (5764607523034235 / 72057594037927936)) = 101"
    by (simp only: rnd diff_zero stop100_id quot100)
  then have len: "nat \<lceil>rnd ?A (rnd ?A (4548635623644201 / 562949953421312 - 0) /
      (5764607523034235 / 72057594037927936))\<rceil> = Suc 100" "(2::nat) \<le> 100"
    by simp_all
  have lst: "rnd ?A (0 + rnd ?A (real 100 * rnd ?A
      (rnd ?A (0 + 5764607523034235 / 72057594037927936) - 0))) = 8"
    by (simp only: rnd add_0 diff_zero of_nat_numeral next100 last100 eight_id)
  show ?thesis
    using calculate_kinetic_data_grid [OF n dt stop len lst] by simp
qed

text \<open>
  With \<open>time_points = 54\<close>: \<open>dt\<close> is the double nearest to 8/54, \<open>8 + dt\<close> rounds up,
  and their quotient rounds to \<open>55 + 2^-47\<close>, whose ceiling is 56.
\<close>

lemma dt54: "round_binary64 (8 / 54) = 667199944795629 / 4503599627370496"
  by code_simp

lemma stop54:
  "round_binary64 (8 + 667199944795629 / 4503599627370496) = 2293499810234975 / 281474976710656"
  by code_simp

lemma stop54_id:
  "round_binary64 (2293499810234975 / 281474976710656) = 2293499810234975 / 281474976710656"
  by code_simp

lemma quot54:
  "round_binary64 (2293499810234975 / 281474976710656 / (667199944795629 / 4503599627370496)) =
     7740561859543041 / 140737488355328"
  by code_simp

lemma next54:
  "round_binary64 (667199944795629 / 4503599627370496) = 667199944795629 / 4503599627370496"
  by code_simp

lemma last54:
  "round_binary64 (55 * (667199944795629 / 4503599627370496)) = 4586999620469949 / 562949953421312"
  by code_simp

lemma last54_id:
  "round_binary64 (4586999620469949 / 562949953421312) = 4586999620469949 / 562949953421312"
  by code_simp

lemma claimed54:
  "\<lfloor>round_binary64 (8 / (667199944795629 / 4503599627370496))\<rfloor> + 1 = 55"
  by code_simp

text \<open>
  C2 says that for every \<open>time_points \<ge> 1\<close> the series has \<open>floor (8 / step) + 1\<close>
  samples, from time 0 to time 8. In binary64, with \<open>time_points = 54\<close> (the other
  parameters at their defaults), \<^verbatim>\<open>calculate_kinetic_data\<close> returns 56 samples, the
  last one at a time greater than 8, while \<open>floor (8 / step) + 1\<close> is 55. The library
  functions \<open>e\<close> and \<open>l\<close> are arbitrary: the length does not depend on them.
\<close>

theorem calculate_kinetic_data_54_time_points:
  "\<exists>rows. calculate_kinetic_data (binary64 e l)
            (init (binary64 e l)\<lparr>parameters := default_parameters (binary64 e l)\<lparr>time_points := 54\<rparr>\<rparr>) = Inr rows \<and>
          length rows = 56 \<and>
          time (last rows) = np (4586999620469949 / 562949953421312) \<and>
          (8 :: real) < 4586999620469949 / 562949953421312 \<and>
          \<lfloor>round_binary64 (8 / round_binary64 (8 / 54))\<rfloor> + 1 = 55"
proof -
  let ?A = "binary64 e l"
  let ?self = "init (binary64 e l)\<lparr>parameters := default_parameters (binary64 e l)\<lparr>time_points := 54\<rparr>\<rparr>"
  have rnd: "rnd ?A = round_binary64" by (simp add: binary64_def)
  have n: "time_points (parameters ?self) = 54" "(54::int) \<noteq> 0"
    by simp_all
  have dt: "rnd ?A (8 / of_int 54) = 667199944795629 / 4503599627370496"
    "(667199944795629 / 4503599627370496 :: real) \<noteq> 0"
    by (simp only: rnd of_int_numeral dt54) simp
  have stop: "rnd ?A (8 + 667199944795629 / 4503599627370496) =
      2293499810234975 / 281474976710656"
    by (simp only: rnd stop54)
  have q: "rnd ?A (rnd ?A (2293499810234975 / 281474976710656 - 0) /
      (667199944795629 / 4503599627370496)) = 7740561859543041 / 140737488355328"
    by (simp only: rnd diff_zero stop54_id quot54)
  have "nat \<lceil>rnd ?A (rnd ?A (2293499810234975 / 281474976710656 - 0) /
      (667199944795629 / 4503599627370496))\<rceil> =
      nat \<lceil>7740561859543041 / 140737488355328 :: real\<rceil>"
    by (simp only: q)
  also have "\<dots> = Suc 55"
    by simp
  finally have len: "nat \<lceil>rnd ?A (rnd ?A (2293499810234975 / 281474976710656 - 0) /
      (667199944795629 / 4503599627370496))\<rceil> = Suc 55" .
  have k: "(2::nat) \<le> 55" by simp
  have lst: "rnd ?A (0 + rnd ?A (real 55 * rnd ?A
      (rnd ?A (0 + 667199944795629 / 4503599627370496) - 0))) =
      4586999620469949 / 562949953421312"
    by (simp only: rnd add_0 diff_zero of_nat_numeral next54 last54 last54_id)
  have "\<lfloor>round_binary64 (8 / round_binary64 (8 / 54))\<rfloor> + 1 = 55"
    by (simp only: dt54 claimed54)
  then show ?thesis
    using calculate_kinetic_data_grid [OF n dt stop len k lst] by simp
qed

end
